theory Spec2Isabelle
  imports Main
begin

section \<open>The CSS selector builder of core-js-101\<close>

text \<open>
  The embedding follows the selector builder of the objects task: the helper object
  \<open>Utils\<close>, the constructor \<open>SelectorBuilder\<close> with its table
  \<open>ORDERED_SELECTORS\<close>, the methods \<open>check\<close>, \<open>stringify\<close>,
  \<open>combine\<close>, the method factory \<open>selectorMaker\<close> and the loop that installs
  one method per table entry on the prototype.

  JavaScript strings are modelled as \<open>string\<close> (lists of characters); the code only
  concatenates, slices and joins them. A thrown exception is a value of \<open>exn\<close>, and a
  call that may throw returns \<open>exn + 'a\<close> with \<open>Inl\<close> for the thrown value.
\<close>

subsection \<open>Exceptions\<close>

text \<open>
  The code itself only ever executes \<open>throw new Error(message)\<close>. The runtime raises a
  \<open>TypeError\<close> when a property of \<open>undefined\<close> is read (\<open>str[0].toUpperCase()\<close> on
  an empty string) or when a missing method is called. An exception value is its
  constructor together with its message.
\<close>

datatype exn = Error string | TypeError string

subsection \<open>Array and string primitives used by the code\<close>

text \<open>
  \<open>Array.prototype.slice(start, end)\<close> and \<open>String.prototype.slice\<close>: a negative index
  counts from the end, both indices are clamped to the length, and an empty range gives
  the empty result.
\<close>

definition slice :: "'a list \<Rightarrow> int \<Rightarrow> int \<Rightarrow> 'a list" where
  "slice xs start fin =
     (let len = int (length xs);
          k = (if start < 0 then max (len + start) 0 else min start len);
          final = (if fin < 0 then max (len + fin) 0 else min fin len)
      in take (nat (final - k)) (drop (nat k) xs))"

text \<open>\<open>slice(start)\<close> with the end omitted runs to the length.\<close>

definition slice_from :: "'a list \<Rightarrow> int \<Rightarrow> 'a list" where
  "slice_from xs start = slice xs start (int (length xs))"

text \<open>\<open>Array.prototype.join(sep)\<close> on an array of strings.\<close>

fun join :: "string list \<Rightarrow> string \<Rightarrow> string" where
  "join [] sep = []"
| "join [x] sep = x"
| "join (x # y # ys) sep = x @ sep @ join (y # ys) sep"

text \<open>
  \<open>toUpperCase\<close> on the letters \<open>a\<close> to \<open>z\<close> (codes 97 to 122); every other character of
  the ASCII range is its own upper case. The labels of the table are ASCII, and the code
  applies \<open>toUpperCase\<close> to the first character of a label only; characters outside
  ASCII are left as they are here, which is not what JavaScript does for all of them.
\<close>

definition toUpperCase_char :: "char \<Rightarrow> char" where
  "toUpperCase_char c =
     (let n = (of_char c :: nat) in if 97 \<le> n \<and> n \<le> 122 then char_of (n - 32) else c)"

definition toUpperCase :: "string \<Rightarrow> string" where
  "toUpperCase s = map toUpperCase_char s"

subsection \<open>Utils\<close>

text \<open>
  \<open>capitalize: (str) => str[0].toUpperCase() + str.slice(1)\<close>. On the empty string
  \<open>str[0]\<close> is \<open>undefined\<close> and the method call throws a \<open>TypeError\<close>.
\<close>

definition capitalize :: "string \<Rightarrow> exn + string" where
  "capitalize str =
     (case str of
        [] \<Rightarrow> Inl (TypeError ''Cannot read properties of undefined (reading 'toUpperCase')'')
      | c # _ \<Rightarrow> Inr (toUpperCase [c] @ slice_from str 1))"

text \<open>\<open>joinColon: (list) => list.join(', ')\<close>.\<close>

definition joinColon :: "string list \<Rightarrow> string" where
  "joinColon list = join list '', ''"

text \<open>
  \<open>joinStart\<close>: the first entry capitalized, then \<open>list.slice(1, -2)\<close>, then the last two
  entries joined with \<open>and\<close>, all joined with commas. On the empty list \<open>list[0]\<close> is
  \<open>undefined\<close> and \<open>capitalize\<close> throws a \<open>TypeError\<close> when it reads index 0 of it.
\<close>

definition joinStart :: "string list \<Rightarrow> exn + string" where
  "joinStart list =
     (case list of
        [] \<Rightarrow> Inl (TypeError ''Cannot read properties of undefined (reading '0')'')
      | first # _ \<Rightarrow>
          (let rest = slice list 1 (- 2);
               lastTwo = slice_from list (- 2)
           in case capitalize first of
                Inl e \<Rightarrow> Inl e
              | Inr cap \<Rightarrow> Inr (join ([cap] @ rest @ [join lastTwo '' and '']) '', '')))"

subsection \<open>SelectorBuilder and its table\<close>

text \<open>
  The names of the six selector methods, the type \<open>Selectors\<close> of the source's type
  comments: the union of the string literals \<open>element\<close>, \<open>id\<close>, \<open>class\<close>, \<open>attr\<close>,
  \<open>pseudoClass\<close> and \<open>pseudoElement\<close>.
\<close>

datatype Selectors = Element | Id | Class | Attr | PseudoClass | PseudoElement

text \<open>An entry of the table (\<open>SelectorConfig\<close> in the source's type comments).\<close>

record SelectorConfig =
  name :: Selectors
  unique :: bool
  toString :: "string \<Rightarrow> string"
  errorName :: string

text \<open>An instance: the two fields the constructor sets.\<close>

record SelectorBuilder =
  selector :: string
  order :: int

text \<open>
  \<open>function SelectorBuilder({ order = -1, selector = '' } = {})\<close>: a field that is absent
  from the argument object (\<open>None\<close>) takes its default.
\<close>

definition new_SelectorBuilder :: "int option \<Rightarrow> string option \<Rightarrow> SelectorBuilder" where
  "new_SelectorBuilder order_arg selector_arg =
     \<lparr> selector = (case selector_arg of None \<Rightarrow> [] | Some s \<Rightarrow> s),
       order = (case order_arg of None \<Rightarrow> - 1 | Some n \<Rightarrow> n) \<rparr>"

definition ORDERED_SELECTORS :: "SelectorConfig list" where
  "ORDERED_SELECTORS =
     [ \<lparr> name = Element, unique = True, toString = (\<lambda>s. s), errorName = ''element'' \<rparr>,
       \<lparr> name = Id, unique = True, toString = (\<lambda>s. ''#'' @ s), errorName = ''id'' \<rparr>,
       \<lparr> name = Class, unique = False, toString = (\<lambda>s. ''.'' @ s), errorName = ''class'' \<rparr>,
       \<lparr> name = Attr, unique = False, toString = (\<lambda>s. ''['' @ s @ '']''),
         errorName = ''attribute'' \<rparr>,
       \<lparr> name = PseudoClass, unique = False, toString = (\<lambda>s. '':'' @ s),
         errorName = ''pseudo-class'' \<rparr>,
       \<lparr> name = PseudoElement, unique = True, toString = (\<lambda>s. ''::'' @ s),
         errorName = ''pseudo-element'' \<rparr> ]"

text \<open>
  \<open>check(order, isUnique)\<close> reads \<open>this.order\<close> and the table; it returns nothing or
  throws. The order test comes first, the uniqueness test second. Every caller passes
  \<open>isUnique\<close>, so its default is not modelled.
\<close>

definition check :: "SelectorBuilder \<Rightarrow> int \<Rightarrow> bool \<Rightarrow> exn + unit" where
  "check this order_arg isUnique =
     (let SELECTORS = ORDERED_SELECTORS in
      if order this > order_arg then
        (let orders = map errorName SELECTORS;
             WRONG_ORDER =
               ''Selector parts should be arranged in the following order: '' @ joinColon orders
         in Inl (Error WRONG_ORDER))
      else if isUnique \<and> order this = order_arg then
        (let uniques = map errorName (filter unique SELECTORS) in
         case joinStart uniques of
           Inl e \<Rightarrow> Inl e
         | Inr joined \<Rightarrow>
             (let UNIQUES_REPEAT =
                    joined @ '' should not occur more then one time inside the selector''
              in Inl (Error UNIQUES_REPEAT)))
      else Inr ())"

definition stringify :: "SelectorBuilder \<Rightarrow> string" where
  "stringify this = selector this"

text \<open>
  \<open>combine\<close> builds the template string and calls the constructor with the
  \<open>selector\<close> field only. The receiver is used for its constructor and nothing else.
\<close>

definition combine ::
  "SelectorBuilder \<Rightarrow> SelectorBuilder \<Rightarrow> string \<Rightarrow> SelectorBuilder \<Rightarrow> SelectorBuilder" where
  "combine this selector1 combinator selector2 =
     new_SelectorBuilder None
       (Some (selector selector1 @ '' '' @ combinator @ '' '' @ selector selector2))"

text \<open>
  \<open>selectorMaker({ order, unique, toString })\<close> returns the method
  \<open>selectorHandler(value)\<close>, whose receiver is the first argument here.
\<close>

type_synonym selectorHandler = "SelectorBuilder \<Rightarrow> string \<Rightarrow> exn + SelectorBuilder"

definition selectorMaker :: "int \<Rightarrow> bool \<Rightarrow> (string \<Rightarrow> string) \<Rightarrow> selectorHandler" where
  "selectorMaker order_arg unique_arg toString_arg =
     (\<lambda>this v.
        case check this order_arg unique_arg of
          Inl e \<Rightarrow> Inl e
        | Inr _ \<Rightarrow>
            Inr (new_SelectorBuilder (Some order_arg) (Some (selector this @ toString_arg v))))"

text \<open>
  The \<open>forEach\<close> loop over the table: entry number \<open>order\<close> installs
  \<open>selectorMaker({ unique, toString, order })\<close> on the prototype under the entry's
  \<open>name\<close>; a later assignment to the same name would replace an earlier one. The loop
  fills the part of the prototype that the source's type comments call
  \<open>SelectorMethods\<close>, the methods named by \<open>Selectors\<close>. The other members of the
  prototype are not in this map: \<open>stringify\<close>, \<open>check\<close> and \<open>combine\<close> are assigned
  one by one and are the definitions of these names above, and \<open>constructor\<close> is the
  function \<open>SelectorBuilder\<close> itself.
\<close>

definition install ::
  "SelectorConfig \<times> nat \<Rightarrow> (Selectors \<rightharpoonup> selectorHandler) \<Rightarrow>
     (Selectors \<rightharpoonup> selectorHandler)" where
  "install entry proto =
     (case entry of (cfg, i) \<Rightarrow>
        proto(name cfg \<mapsto> selectorMaker (int i) (unique cfg) (toString cfg)))"

definition SelectorMethods :: "Selectors \<rightharpoonup> selectorHandler" where
  "SelectorMethods =
     fold install (zip ORDERED_SELECTORS [0..<length ORDERED_SELECTORS]) Map.empty"

text \<open>
  The call \<open>receiver.k(value)\<close> of one of the six selector methods, \<open>k\<close> being its name.
  Had the loop installed nothing under \<open>k\<close>, the property would be \<open>undefined\<close> and the
  call would throw a \<open>TypeError\<close>; the loop installs all six (\<open>call_simps\<close> below).
\<close>

definition call :: "Selectors \<Rightarrow> selectorHandler" where
  "call k this v =
     (case SelectorMethods k of
        None \<Rightarrow> Inl (TypeError ''receiver[k] is not a function'')
      | Some handler \<Rightarrow> handler this v)"

text \<open>\<open>const cssSelectorBuilder = new SelectorBuilder()\<close>.\<close>

definition cssSelectorBuilder :: SelectorBuilder where
  "cssSelectorBuilder = new_SelectorBuilder None None"

subsection \<open>Client programs\<close>

text \<open>
  A client builds a selector by a chain of calls that starts at the exported constant:
  \<open>Builder\<close> is \<open>cssSelectorBuilder\<close>, \<open>Append e k v\<close> is the method call \<open>e.k(v)\<close>
  and \<open>Combine x l c r\<close> is \<open>x.combine(l, c, r)\<close>. Receiver and arguments are evaluated
  from left to right and the first exception ends the evaluation.
\<close>

datatype expr = Builder | Append expr Selectors string | Combine expr expr string expr

fun eval :: "expr \<Rightarrow> exn + SelectorBuilder" where
  "eval Builder = Inr cssSelectorBuilder"
| "eval (Append e k v) =
     (case eval e of Inl x \<Rightarrow> Inl x | Inr this \<Rightarrow> call k this v)"
| "eval (Combine x l c r) =
     (case eval x of
        Inl e \<Rightarrow> Inl e
      | Inr this \<Rightarrow>
          (case eval l of
             Inl e \<Rightarrow> Inl e
           | Inr s1 \<Rightarrow>
               (case eval r of
                  Inl e \<Rightarrow> Inl e
                | Inr s2 \<Rightarrow> Inr (combine this s1 c s2))))"

subsection \<open>The layout of a chain's text\<close>

text \<open>
  What a chain writes, piece by piece in the order of the text: an append writes the
  fragment of its kind after everything its receiver holds, a combination writes the
  pieces of its left argument, the combinator and the pieces of its right argument.
  A fragment renders through the \<open>toString\<close> of its kind's table entry, a combinator
  renders between two spaces.
\<close>

datatype piece = Fragment Selectors string | Combinator string

fun pieces :: "expr \<Rightarrow> piece list" where
  "pieces Builder = []"
| "pieces (Append e k v) = pieces e @ [Fragment k v]"
| "pieces (Combine x l c r) = pieces l @ [Combinator c] @ pieces r"

definition render :: "Selectors \<Rightarrow> string \<Rightarrow> string" where
  "render k v =
     (case find (\<lambda>cfg. name cfg = k) ORDERED_SELECTORS of
        None \<Rightarrow> []
      | Some cfg \<Rightarrow> toString cfg v)"

fun piece_text :: "piece \<Rightarrow> string" where
  "piece_text (Fragment k v) = render k v"
| "piece_text (Combinator c) = '' '' @ c @ '' ''"

fun piece_kind :: "piece \<Rightarrow> Selectors list" where
  "piece_kind (Fragment k v) = [k]"
| "piece_kind (Combinator c) = []"

text \<open>The kinds that appear in the text of a chain, in the order of the text.\<close>

definition kinds :: "expr \<Rightarrow> Selectors list" where
  "kinds e = concat (map piece_kind (pieces e))"

text \<open>
  The same kinds split into runs. A run holds the fragments appended one after the other
  to the same instance: an append extends the last run, and a combination keeps the runs
  of its two arguments and opens a new, empty run for the appends made to its result.
\<close>

fun runs :: "expr \<Rightarrow> Selectors list list" where
  "runs Builder = [[]]"
| "runs (Append e k v) = butlast (runs e) @ [last (runs e) @ [k]]"
| "runs (Combine x l c r) = runs l @ runs r @ [[]]"

text \<open>A chain that is built by appends alone, with no combination.\<close>

fun appends_only :: "expr \<Rightarrow> bool" where
  "appends_only Builder = True"
| "appends_only (Append e k v) = appends_only e"
| "appends_only (Combine x l c r) = False"

text \<open>
  The rank of a kind is the index of its entry in the table, the number the \<open>forEach\<close>
  loop passes as \<open>order\<close> (a kind without an entry would get \<open>-1\<close>, "none yet"). A kind is
  non-repeatable when its entry has \<open>unique\<close> set.
\<close>

definition rank :: "Selectors \<Rightarrow> int" where
  "rank k =
     (case map_of (zip (map name ORDERED_SELECTORS) [0..<length ORDERED_SELECTORS]) k of
        None \<Rightarrow> - 1
      | Some i \<Rightarrow> int i)"

definition non_repeatable :: "Selectors \<Rightarrow> bool" where
  "non_repeatable k = (\<exists>cfg \<in> set ORDERED_SELECTORS. name cfg = k \<and> unique cfg)"

text \<open>
  The two parts of the invariant of the data model, on a list of kinds: ranks never
  decrease, and no non-repeatable kind occurs twice.
\<close>

definition rank_ordered :: "Selectors list \<Rightarrow> bool" where
  "rank_ordered ks = sorted (map rank ks)"

definition unique_once :: "Selectors list \<Rightarrow> bool" where
  "unique_once ks = (\<forall>k \<in> set ks. non_repeatable k \<longrightarrow> count_list ks k \<le> 1)"

subsection \<open>The same code over a store\<close>

text \<open>
  To speak about what a call changes, the instances are put in a store, a list of
  instances addressed by position, and the code is translated once more with every field
  read and every assignment made on the store.

  The two assignments of the constructor body, \<open>this.selector = selector\<close> and
  \<open>this.order = order\<close>, write to the instance at the address \<open>this\<close>.
\<close>

type_synonym ref = nat
type_synonym store = "SelectorBuilder list"

definition assign_selector :: "ref \<Rightarrow> string \<Rightarrow> store \<Rightarrow> store" where
  "assign_selector this s h = h[this := (h ! this)\<lparr> selector := s \<rparr>]"

definition assign_order :: "ref \<Rightarrow> int \<Rightarrow> store \<Rightarrow> store" where
  "assign_order this n h = h[this := (h ! this)\<lparr> order := n \<rparr>]"

text \<open>
  The body of \<open>function SelectorBuilder\<close> run with a given \<open>this\<close>. Called as a method
  on an existing instance (\<open>receiver.constructor(x)\<close>) it overwrites both fields of the
  receiver.
\<close>

definition SelectorBuilder_h :: "ref \<Rightarrow> int option \<Rightarrow> string option \<Rightarrow> store \<Rightarrow> store" where
  "SelectorBuilder_h this order_arg selector_arg h =
     (let selector_v = (case selector_arg of None \<Rightarrow> [] | Some s \<Rightarrow> s);
          order_v = (case order_arg of None \<Rightarrow> - 1 | Some n \<Rightarrow> n);
          h1 = assign_selector this selector_v h
      in assign_order this order_v h1)"

text \<open>
  \<open>new this.constructor(args)\<close>: a fresh object is created at the next free address and
  the constructor body runs with \<open>this\<close> bound to it. The fresh object has no fields
  before the body assigns both; the store holds a placeholder for it until then.
\<close>

definition fresh_object :: SelectorBuilder where
  "fresh_object = \<lparr> selector = [], order = 0 \<rparr>"

definition new_h :: "int option \<Rightarrow> string option \<Rightarrow> store \<Rightarrow> ref \<times> store" where
  "new_h order_arg selector_arg h =
     (let this = length h
      in (this, SelectorBuilder_h this order_arg selector_arg (h @ [fresh_object])))"

text \<open>\<open>check\<close> over the store: it reads \<open>this.order\<close> and assigns nothing.\<close>

definition check_h :: "ref \<Rightarrow> int \<Rightarrow> bool \<Rightarrow> store \<Rightarrow> exn + unit" where
  "check_h this order_arg isUnique h =
     (let SELECTORS = ORDERED_SELECTORS in
      if order (h ! this) > order_arg then
        (let orders = map errorName SELECTORS;
             WRONG_ORDER =
               ''Selector parts should be arranged in the following order: '' @ joinColon orders
         in Inl (Error WRONG_ORDER))
      else if isUnique \<and> order (h ! this) = order_arg then
        (let uniques = map errorName (filter unique SELECTORS) in
         case joinStart uniques of
           Inl e \<Rightarrow> Inl e
         | Inr joined \<Rightarrow>
             (let UNIQUES_REPEAT =
                    joined @ '' should not occur more then one time inside the selector''
              in Inl (Error UNIQUES_REPEAT)))
      else Inr ())"

text \<open>
  \<open>combine\<close> over the store reads the \<open>selector\<close> fields of its two arguments and
  returns the address of the instance that \<open>new\<close> creates.
\<close>

definition combine_h :: "ref \<Rightarrow> ref \<Rightarrow> string \<Rightarrow> ref \<Rightarrow> store \<Rightarrow> ref \<times> store" where
  "combine_h this selector1 combinator selector2 h =
     new_h None
       (Some (selector (h ! selector1) @ '' '' @ combinator @ '' '' @ selector (h ! selector2)))
       h"

text \<open>
  \<open>selectorHandler\<close> over the store: the call of \<open>this.check\<close>, then
  \<open>new this.constructor({ order, selector: this.selector + toString(value) })\<close>. When
  \<open>check\<close> throws nothing has been written.
\<close>

type_synonym selectorHandler_h = "ref \<Rightarrow> string \<Rightarrow> store \<Rightarrow> (exn + ref) \<times> store"

definition selectorMaker_h :: "int \<Rightarrow> bool \<Rightarrow> (string \<Rightarrow> string) \<Rightarrow> selectorHandler_h" where
  "selectorMaker_h order_arg unique_arg toString_arg =
     (\<lambda>this v h.
        case check_h this order_arg unique_arg h of
          Inl e \<Rightarrow> (Inl e, h)
        | Inr _ \<Rightarrow>
            (case new_h (Some order_arg) (Some (selector (h ! this) @ toString_arg v)) h of
               (p, h') \<Rightarrow> (Inr p, h')))"

definition install_h ::
  "SelectorConfig \<times> nat \<Rightarrow> (Selectors \<rightharpoonup> selectorHandler_h) \<Rightarrow>
     (Selectors \<rightharpoonup> selectorHandler_h)" where
  "install_h entry proto =
     (case entry of (cfg, i) \<Rightarrow>
        proto(name cfg \<mapsto> selectorMaker_h (int i) (unique cfg) (toString cfg)))"

definition SelectorMethods_h :: "Selectors \<rightharpoonup> selectorHandler_h" where
  "SelectorMethods_h =
     fold install_h (zip ORDERED_SELECTORS [0..<length ORDERED_SELECTORS]) Map.empty"

definition call_h :: "Selectors \<Rightarrow> selectorHandler_h" where
  "call_h k this v h =
     (case SelectorMethods_h k of
        None \<Rightarrow> (Inl (TypeError ''receiver[k] is not a function''), h)
      | Some handler \<Rightarrow> handler this v h)"

text \<open>
  The module creates \<open>cssSelectorBuilder\<close> first, so it is the instance at address 0 of
  the store a client starts with. A chain evaluated over the store returns the address of
  its result.
\<close>

definition module_store :: store where
  "module_store = snd (new_h None None [])"

fun eval_h :: "expr \<Rightarrow> store \<Rightarrow> (exn + ref) \<times> store" where
  "eval_h Builder h = (Inr 0, h)"
| "eval_h (Append e k v) h =
     (case eval_h e h of
        (Inl x, h1) \<Rightarrow> (Inl x, h1)
      | (Inr this, h1) \<Rightarrow> call_h k this v h1)"
| "eval_h (Combine x l c r) h =
     (case eval_h x h of
        (Inl e, h1) \<Rightarrow> (Inl e, h1)
      | (Inr this, h1) \<Rightarrow>
          (case eval_h l h1 of
             (Inl e, h2) \<Rightarrow> (Inl e, h2)
           | (Inr s1, h2) \<Rightarrow>
               (case eval_h r h2 of
                  (Inl e, h3) \<Rightarrow> (Inl e, h3)
                | (Inr s2, h3) \<Rightarrow>
                    (case combine_h this s1 c s2 h3 of (p, h4) \<Rightarrow> (Inr p, h4)))))"

section \<open>Evaluating the table\<close>

lemma toUpperCase_e: "toUpperCase ''e'' = ''E''"
  by code_simp

lemma joinColon_labels:
  "joinColon (map errorName ORDERED_SELECTORS) =
     ''element, id, class, attribute, pseudo-class, pseudo-element''"
  by (simp add: joinColon_def ORDERED_SELECTORS_def)

lemma joinStart_uniques:
  "joinStart (map errorName (filter unique ORDERED_SELECTORS)) =
     Inr ''Element, id and pseudo-element''"
  by (simp add: joinStart_def ORDERED_SELECTORS_def capitalize_def slice_def slice_from_def
      toUpperCase_e)

lemma check_eq:
  "check this n u =
     (if n < order this then
        Inl (Error ''Selector parts should be arranged in the following order: element, id, class, attribute, pseudo-class, pseudo-element'')
      else if u \<and> order this = n then
        Inl (Error ''Element, id and pseudo-element should not occur more then one time inside the selector'')
      else Inr ())"
  by (simp add: check_def joinColon_labels joinStart_uniques)

lemma selectorMaker_eq:
  "selectorMaker n u f this v =
     (if n < order this then
        Inl (Error ''Selector parts should be arranged in the following order: element, id, class, attribute, pseudo-class, pseudo-element'')
      else if u \<and> order this = n then
        Inl (Error ''Element, id and pseudo-element should not occur more then one time inside the selector'')
      else Inr \<lparr> selector = selector this @ f v, order = n \<rparr>)"
  by (simp add: selectorMaker_def check_eq new_SelectorBuilder_def)

lemma call_Element: "call Element = selectorMaker 0 True (\<lambda>s. s)"
  by (rule ext)+ (simp add: call_def SelectorMethods_def install_def ORDERED_SELECTORS_def upt_rec)

lemma call_Id: "call Id = selectorMaker 1 True (\<lambda>s. ''#'' @ s)"
  by (rule ext)+ (simp add: call_def SelectorMethods_def install_def ORDERED_SELECTORS_def upt_rec)

lemma call_Class: "call Class = selectorMaker 2 False (\<lambda>s. ''.'' @ s)"
  by (rule ext)+ (simp add: call_def SelectorMethods_def install_def ORDERED_SELECTORS_def upt_rec)

lemma call_Attr: "call Attr = selectorMaker 3 False (\<lambda>s. ''['' @ s @ '']'')"
  by (rule ext)+ (simp add: call_def SelectorMethods_def install_def ORDERED_SELECTORS_def upt_rec)

lemma call_PseudoClass: "call PseudoClass = selectorMaker 4 False (\<lambda>s. '':'' @ s)"
  by (rule ext)+ (simp add: call_def SelectorMethods_def install_def ORDERED_SELECTORS_def upt_rec)

lemma call_PseudoElement: "call PseudoElement = selectorMaker 5 True (\<lambda>s. ''::'' @ s)"
  by (rule ext)+ (simp add: call_def SelectorMethods_def install_def ORDERED_SELECTORS_def upt_rec)

lemmas call_simps =
  call_Element call_Id call_Class call_Attr call_PseudoClass call_PseudoElement

lemma css_eq: "cssSelectorBuilder = \<lparr> selector = [], order = - 1 \<rparr>"
  by (simp add: cssSelectorBuilder_def new_SelectorBuilder_def)

lemma rank_simps:
  "rank Element = 0" "rank Id = 1" "rank Class = 2" "rank Attr = 3"
  "rank PseudoClass = 4" "rank PseudoElement = 5"
  by (simp_all add: rank_def ORDERED_SELECTORS_def upt_rec)

lemma non_repeatable_simps:
  "non_repeatable Element" "non_repeatable Id" "\<not> non_repeatable Class"
  "\<not> non_repeatable Attr" "\<not> non_repeatable PseudoClass" "non_repeatable PseudoElement"
  by (simp_all add: non_repeatable_def ORDERED_SELECTORS_def)

lemma render_simps:
  "render Element v = v" "render Id v = ''#'' @ v" "render Class v = ''.'' @ v"
  "render Attr v = ''['' @ v @ '']''" "render PseudoClass v = '':'' @ v"
  "render PseudoElement v = ''::'' @ v"
  by (simp_all add: render_def ORDERED_SELECTORS_def)


section \<open>The append operations\<close>

text \<open>
  C1. For every receiver and each of the six append methods: the append returns exactly
  when the receiver's \<open>order\<close> admits the kind (below the rank for \<open>element\<close>, \<open>id\<close> and
  \<open>pseudoElement\<close>, at most the rank for \<open>class\<close>, \<open>attr\<close> and \<open>pseudoClass\<close>), and what
  it returns is the instance whose text is the receiver's text followed directly by the
  rendered fragment (\<open>element\<close> renders the value as it is, \<open>id\<close> puts \<open>#\<close> before it,
  \<open>class\<close> a dot, \<open>attr\<close> encloses it in square brackets, \<open>pseudoClass\<close> puts one colon
  before it and \<open>pseudoElement\<close> two) and whose \<open>order\<close> is the rank of the appended kind,
  its index 0 to 5 in the table.
\<close>

theorem append_result:
  "(call Element this v = Inr r \<longleftrightarrow>
      order this < 0 \<and> r = \<lparr> selector = selector this @ v, order = 0 \<rparr>) \<and>
   (call Id this v = Inr r \<longleftrightarrow>
      order this < 1 \<and> r = \<lparr> selector = selector this @ ''#'' @ v, order = 1 \<rparr>) \<and>
   (call Class this v = Inr r \<longleftrightarrow>
      order this \<le> 2 \<and> r = \<lparr> selector = selector this @ ''.'' @ v, order = 2 \<rparr>) \<and>
   (call Attr this v = Inr r \<longleftrightarrow>
      order this \<le> 3 \<and> r = \<lparr> selector = selector this @ ''['' @ v @ '']'', order = 3 \<rparr>) \<and>
   (call PseudoClass this v = Inr r \<longleftrightarrow>
      order this \<le> 4 \<and> r = \<lparr> selector = selector this @ '':'' @ v, order = 4 \<rparr>) \<and>
   (call PseudoElement this v = Inr r \<longleftrightarrow>
      order this < 5 \<and> r = \<lparr> selector = selector this @ ''::'' @ v, order = 5 \<rparr>) \<and>
   map name ORDERED_SELECTORS = [Element, Id, Class, Attr, PseudoClass, PseudoElement] \<and>
   map rank [Element, Id, Class, Attr, PseudoClass, PseudoElement] = [0, 1, 2, 3, 4, 5]"
  by (auto simp add: call_simps selectorMaker_eq rank_simps ORDERED_SELECTORS_def)

theorem append_result_witness:
  "eval (Append (Append (Append Builder Element ''a'') Attr ''href'') PseudoClass ''focus'') =
     Inr \<lparr> selector = ''a[href]:focus'', order = 4 \<rparr> \<and>
   eval (Append (Append (Append Builder Id ''main'') Class ''container'') PseudoElement
           ''before'') =
     Inr \<lparr> selector = ''#main.container::before'', order = 5 \<rparr> \<and>
   eval (Append (Combine Builder (Append Builder Element ''ul'') ''>'' Builder) Element ''li'') =
     Inr \<lparr> selector = ''ul > li'', order = 0 \<rparr>"
proof -
  have a1: "call Element cssSelectorBuilder ''a'' = Inr \<lparr> selector = ''a'', order = 0 \<rparr>"
    using append_result [of cssSelectorBuilder "''a''" "\<lparr> selector = ''a'', order = 0 \<rparr>"]
    by (simp add: css_eq)
  have a2: "call Attr \<lparr> selector = ''a'', order = 0 \<rparr> ''href'' =
      Inr \<lparr> selector = ''a[href]'', order = 3 \<rparr>"
    using append_result [of "\<lparr> selector = ''a'', order = 0 \<rparr>" "''href''"
        "\<lparr> selector = ''a[href]'', order = 3 \<rparr>"]
    by simp
  have a3: "call PseudoClass \<lparr> selector = ''a[href]'', order = 3 \<rparr> ''focus'' =
      Inr \<lparr> selector = ''a[href]:focus'', order = 4 \<rparr>"
    using append_result [of "\<lparr> selector = ''a[href]'', order = 3 \<rparr>" "''focus''"
        "\<lparr> selector = ''a[href]:focus'', order = 4 \<rparr>"]
    by simp
  have b1: "call Id cssSelectorBuilder ''main'' = Inr \<lparr> selector = ''#main'', order = 1 \<rparr>"
    using append_result [of cssSelectorBuilder "''main''" "\<lparr> selector = ''#main'', order = 1 \<rparr>"]
    by (simp add: css_eq)
  have b2: "call Class \<lparr> selector = ''#main'', order = 1 \<rparr> ''container'' =
      Inr \<lparr> selector = ''#main.container'', order = 2 \<rparr>"
    using append_result [of "\<lparr> selector = ''#main'', order = 1 \<rparr>" "''container''"
        "\<lparr> selector = ''#main.container'', order = 2 \<rparr>"]
    by simp
  have b3: "call PseudoElement \<lparr> selector = ''#main.container'', order = 2 \<rparr> ''before'' =
      Inr \<lparr> selector = ''#main.container::before'', order = 5 \<rparr>"
    using append_result [of "\<lparr> selector = ''#main.container'', order = 2 \<rparr>" "''before''"
        "\<lparr> selector = ''#main.container::before'', order = 5 \<rparr>"]
    by simp
  have c: "call Element \<lparr> selector = ''ul > '', order = - 1 \<rparr> ''li'' =
      Inr \<lparr> selector = ''ul > li'', order = 0 \<rparr>"
    using append_result [of "\<lparr> selector = ''ul > '', order = - 1 \<rparr>" "''li''"
        "\<lparr> selector = ''ul > li'', order = 0 \<rparr>"]
    by simp
  have u: "call Element cssSelectorBuilder ''ul'' = Inr \<lparr> selector = ''ul'', order = 0 \<rparr>"
    using append_result [of cssSelectorBuilder "''ul''" "\<lparr> selector = ''ul'', order = 0 \<rparr>"]
    by (simp add: css_eq)
  have k: "combine cssSelectorBuilder \<lparr> selector = ''ul'', order = 0 \<rparr> ''>'' cssSelectorBuilder =
      \<lparr> selector = ''ul > '', order = - 1 \<rparr>"
    by (simp add: combine_def new_SelectorBuilder_def css_eq)
  show ?thesis
    by (simp add: a1 a2 a3 b1 b2 b3 c u k)
qed

text \<open>
  C2. An append whose rank is below the receiver's \<open>order\<close> throws the error of the order
  check, whichever of the six kinds is appended and whatever the receiver's \<open>order\<close> is;
  the message ends with the six labels of the table in table order, joined with commas.
  An append whose rank is at least the receiver's \<open>order\<close> does not throw that error. The
  same holds of \<open>check\<close> itself for any rank passed to it.
\<close>

theorem order_violation:
  "map errorName ORDERED_SELECTORS =
     [''element'', ''id'', ''class'', ''attribute'', ''pseudo-class'', ''pseudo-element''] \<and>
   (\<forall>msg. msg = ''Selector parts should be arranged in the following order: '' @
             join [''element'', ''id'', ''class'', ''attribute'', ''pseudo-class'',
                   ''pseudo-element''] '', '' \<longrightarrow>
      (call Element this v = Inl (Error msg) \<longleftrightarrow> 0 < order this) \<and>
      (call Id this v = Inl (Error msg) \<longleftrightarrow> 1 < order this) \<and>
      (call Class this v = Inl (Error msg) \<longleftrightarrow> 2 < order this) \<and>
      (call Attr this v = Inl (Error msg) \<longleftrightarrow> 3 < order this) \<and>
      (call PseudoClass this v = Inl (Error msg) \<longleftrightarrow> 4 < order this) \<and>
      (call PseudoElement this v = Inl (Error msg) \<longleftrightarrow> 5 < order this) \<and>
      (check this n u = Inl (Error msg) \<longleftrightarrow> n < order this))"
  by (simp add: call_simps selectorMaker_eq check_eq ORDERED_SELECTORS_def)

theorem order_violation_witness:
  "call Element \<lparr> selector = ''a::before'', order = 5 \<rparr> ''b'' =
     Inl (Error ''Selector parts should be arranged in the following order: element, id, class, attribute, pseudo-class, pseudo-element'') \<and>
   call Id \<lparr> selector = ''#main.c1'', order = 2 \<rparr> ''other'' =
     Inl (Error ''Selector parts should be arranged in the following order: element, id, class, attribute, pseudo-class, pseudo-element'') \<and>
   call Class \<lparr> selector = ''#main.c1'', order = 2 \<rparr> ''c2'' \<noteq>
     Inl (Error ''Selector parts should be arranged in the following order: element, id, class, attribute, pseudo-class, pseudo-element'')"
  using order_violation [of "\<lparr> selector = ''a::before'', order = 5 \<rparr>" "''b''"]
    order_violation [of "\<lparr> selector = ''#main.c1'', order = 2 \<rparr>" "''other''"]
    order_violation [of "\<lparr> selector = ''#main.c1'', order = 2 \<rparr>" "''c2''"]
  by simp

text \<open>
  C3. The non-repeatable kinds are \<open>element\<close>, \<open>id\<close> and \<open>pseudoElement\<close>. Appending one
  of them to a receiver whose \<open>order\<close> is that kind's rank throws the error of the
  uniqueness check, whose message names the three labels; so wherever a first append of
  such a kind succeeds (the receiver's \<open>order\<close> is below the rank), appending the same
  kind to its result throws that error. Wherever \<open>class\<close>, \<open>attr\<close> or \<open>pseudoClass\<close> can be
  appended at all (the receiver's \<open>order\<close> is at most the rank, which alone keeps the
  order check silent), the append succeeds, appending the same kind to its result
  succeeds too, and the text holds both rendered fragments after the receiver's text.
\<close>

theorem duplicate_unique:
  "map name (filter unique ORDERED_SELECTORS) = [Element, Id, PseudoElement] \<and>
   map errorName (filter unique ORDERED_SELECTORS) = [''element'', ''id'', ''pseudo-element''] \<and>
   map name (filter (\<lambda>cfg. \<not> unique cfg) ORDERED_SELECTORS) = [Class, Attr, PseudoClass] \<and>
   (\<forall>msg. msg =
        ''Element, id and pseudo-element should not occur more then one time inside the selector''
      \<longrightarrow>
      (order this = 0 \<longrightarrow> call Element this w = Inl (Error msg)) \<and>
      (order this = 1 \<longrightarrow> call Id this w = Inl (Error msg)) \<and>
      (order this = 5 \<longrightarrow> call PseudoElement this w = Inl (Error msg)) \<and>
      (call Element this v = Inr r \<longrightarrow> call Element r w = Inl (Error msg)) \<and>
      (call Id this v = Inr r \<longrightarrow> call Id r w = Inl (Error msg)) \<and>
      (call PseudoElement this v = Inr r \<longrightarrow> call PseudoElement r w = Inl (Error msg)) \<and>
      (order this < 0 \<longrightarrow>
         call Element this v = Inr \<lparr> selector = selector this @ v, order = 0 \<rparr> \<and>
         call Element \<lparr> selector = selector this @ v, order = 0 \<rparr> w = Inl (Error msg)) \<and>
      (order this < 1 \<longrightarrow>
         call Id this v = Inr \<lparr> selector = selector this @ ''#'' @ v, order = 1 \<rparr> \<and>
         call Id \<lparr> selector = selector this @ ''#'' @ v, order = 1 \<rparr> w = Inl (Error msg)) \<and>
      (order this < 5 \<longrightarrow>
         call PseudoElement this v =
           Inr \<lparr> selector = selector this @ ''::'' @ v, order = 5 \<rparr> \<and>
         call PseudoElement \<lparr> selector = selector this @ ''::'' @ v, order = 5 \<rparr> w =
           Inl (Error msg))) \<and>
   (call Class this v = Inr r \<longrightarrow>
      call Class r w = Inr \<lparr> selector = selector this @ ''.'' @ v @ ''.'' @ w, order = 2 \<rparr>) \<and>
   (call Attr this v = Inr r \<longrightarrow>
      call Attr r w =
        Inr \<lparr> selector = selector this @ ''['' @ v @ '']'' @ ''['' @ w @ '']'', order = 3 \<rparr>) \<and>
   (call PseudoClass this v = Inr r \<longrightarrow>
      call PseudoClass r w =
        Inr \<lparr> selector = selector this @ '':'' @ v @ '':'' @ w, order = 4 \<rparr>) \<and>
   (order this \<le> 2 \<longrightarrow>
      call Class this v = Inr \<lparr> selector = selector this @ ''.'' @ v, order = 2 \<rparr> \<and>
      call Class \<lparr> selector = selector this @ ''.'' @ v, order = 2 \<rparr> w =
        Inr \<lparr> selector = selector this @ ''.'' @ v @ ''.'' @ w, order = 2 \<rparr>) \<and>
   (order this \<le> 3 \<longrightarrow>
      call Attr this v = Inr \<lparr> selector = selector this @ ''['' @ v @ '']'', order = 3 \<rparr> \<and>
      call Attr \<lparr> selector = selector this @ ''['' @ v @ '']'', order = 3 \<rparr> w =
        Inr \<lparr> selector = selector this @ ''['' @ v @ '']'' @ ''['' @ w @ '']'', order = 3 \<rparr>) \<and>
   (order this \<le> 4 \<longrightarrow>
      call PseudoClass this v = Inr \<lparr> selector = selector this @ '':'' @ v, order = 4 \<rparr> \<and>
      call PseudoClass \<lparr> selector = selector this @ '':'' @ v, order = 4 \<rparr> w =
        Inr \<lparr> selector = selector this @ '':'' @ v @ '':'' @ w, order = 4 \<rparr>)"
  by (auto simp add: call_simps selectorMaker_eq ORDERED_SELECTORS_def split: if_splits)

theorem duplicate_unique_witness:
  "eval (Append (Append Builder Element ''div'') Element ''span'') = Inl (Error ''Element, id and pseudo-element should not occur more then one time inside the selector'') \<and>
   eval (Append (Append Builder Id ''main'') Id ''other'') = Inl (Error ''Element, id and pseudo-element should not occur more then one time inside the selector'') \<and>
   eval (Append (Append Builder PseudoElement ''before'') PseudoElement ''after'') =
     Inl (Error ''Element, id and pseudo-element should not occur more then one time inside the selector'') \<and>
   eval (Append (Append Builder Class ''container'') Class ''editable'') =
     Inr \<lparr> selector = ''.container.editable'', order = 2 \<rparr> \<and>
   eval (Append (Append Builder Attr ''a'') Attr ''b'') =
     Inr \<lparr> selector = ''[a][b]'', order = 3 \<rparr> \<and>
   eval (Append (Append Builder PseudoClass ''hover'') PseudoClass ''focus'') =
     Inr \<lparr> selector = '':hover:focus'', order = 4 \<rparr> \<and>
   eval (Append (Append (Append Builder Id ''main'') Class ''container'') Class ''editable'') =
     Inr \<lparr> selector = ''#main.container.editable'', order = 2 \<rparr>"
proof -
  have o: "order cssSelectorBuilder = - 1" and s: "selector cssSelectorBuilder = []"
    by (simp_all add: css_eq)
  note d = duplicate_unique [of cssSelectorBuilder]
  have i: "call Id cssSelectorBuilder ''main'' = Inr \<lparr> selector = ''#main'', order = 1 \<rparr>"
    using d [of _ "''main''"] by (simp add: o s)
  show ?thesis
    using d [of "''span''" "''div''"] d [of "''other''" "''main''"] d [of "''after''" "''before''"]
      d [of "''editable''" "''container''"] d [of "''b''" "''a''"] d [of "''focus''" "''hover''"]
      duplicate_unique [of "\<lparr> selector = ''#main'', order = 1 \<rparr>" "''editable''" "''container''"]
    by (simp add: o s i)
qed

section \<open>Combination\<close>

text \<open>
  C4. \<open>combine\<close> has no check and no \<open>throw\<close>: for any receiver, any two instances and
  any combinator string it returns the instance whose text is the left text, a space, the
  combinator, a space and the right text, and whose \<open>order\<close> is the default \<open>-1\<close>.
\<close>

theorem combine_result:
  "combine this l c r = \<lparr> selector = selector l @ '' '' @ c @ '' '' @ selector r, order = - 1 \<rparr> \<and>
   stringify (combine this l c r) = stringify l @ '' '' @ c @ '' '' @ stringify r \<and>
   order cssSelectorBuilder = - 1"
  by (simp add: combine_def new_SelectorBuilder_def stringify_def cssSelectorBuilder_def)

text \<open>
  C7. The text of a combination of three instances does not depend on the nesting: both
  nestings give the three texts in order with each combinator between single spaces.
\<close>

theorem combine_assoc:
  "selector (combine t (combine t' a c1 b) c2 c) =
     selector a @ '' '' @ c1 @ '' '' @ selector b @ '' '' @ c2 @ '' '' @ selector c \<and>
   selector (combine t a c1 (combine t' b c2 c)) =
     selector a @ '' '' @ c1 @ '' '' @ selector b @ '' '' @ c2 @ '' '' @ selector c \<and>
   combine t (combine t' a c1 b) c2 c = combine t a c1 (combine t' b c2 c)"
  by (simp add: combine_def new_SelectorBuilder_def)

text \<open>
  C8. The uniqueness check throws exactly when a non-repeatable kind is appended to a
  receiver whose \<open>order\<close> equals the kind's rank, and never for a repeatable kind. A
  combination has \<open>order\<close> \<open>-1\<close>, so each of the three non-repeatable appends succeeds on
  it, whatever the combined texts contain.
\<close>

theorem unique_after_combine:
  "call Element (combine t l c r) v =
     Inr \<lparr> selector = selector l @ '' '' @ c @ '' '' @ selector r @ v, order = 0 \<rparr> \<and>
   call Id (combine t l c r) v =
     Inr \<lparr> selector = selector l @ '' '' @ c @ '' '' @ selector r @ ''#'' @ v, order = 1 \<rparr> \<and>
   call PseudoElement (combine t l c r) v =
     Inr \<lparr> selector = selector l @ '' '' @ c @ '' '' @ selector r @ ''::'' @ v, order = 5 \<rparr> \<and>
   (\<forall>msg. msg =
        ''Element, id and pseudo-element should not occur more then one time inside the selector''
      \<longrightarrow>
      (call Element this v = Inl (Error msg) \<longleftrightarrow> order this = 0) \<and>
      (call Id this v = Inl (Error msg) \<longleftrightarrow> order this = 1) \<and>
      (call PseudoElement this v = Inl (Error msg) \<longleftrightarrow> order this = 5) \<and>
      call Class this v \<noteq> Inl (Error msg) \<and>
      call Attr this v \<noteq> Inl (Error msg) \<and>
      call PseudoClass this v \<noteq> Inl (Error msg) \<and>
      (check this n u = Inl (Error msg) \<longleftrightarrow> u \<and> order this = n))"
  by (simp add: call_simps selectorMaker_eq check_eq combine_def new_SelectorBuilder_def)

theorem unique_after_combine_witness:
  "eval (Append (Combine Builder (Append Builder Element ''div'') ''+''
                   (Append Builder Element ''p'')) Element ''x'') =
     Inr \<lparr> selector = ''div + px'', order = 0 \<rparr> \<and>
   call Element \<lparr> selector = ''div'', order = 0 \<rparr> ''p'' =
     Inl (Error ''Element, id and pseudo-element should not occur more then one time inside the selector'') \<and>
   call Element \<lparr> selector = ''div + p'', order = - 1 \<rparr> ''x'' \<noteq>
     Inl (Error ''Element, id and pseudo-element should not occur more then one time inside the selector'')"
proof -
  have d: "call Element cssSelectorBuilder ''div'' = Inr \<lparr> selector = ''div'', order = 0 \<rparr>"
    and p: "call Element cssSelectorBuilder ''p'' = Inr \<lparr> selector = ''p'', order = 0 \<rparr>"
    by (simp_all add: call_simps selectorMaker_eq cssSelectorBuilder_def new_SelectorBuilder_def)
  show ?thesis
    using unique_after_combine [of cssSelectorBuilder "\<lparr> selector = ''div'', order = 0 \<rparr>" "''+''"
        "\<lparr> selector = ''p'', order = 0 \<rparr>" "''x''"]
      unique_after_combine [of _ _ _ _ "''p''" "\<lparr> selector = ''div'', order = 0 \<rparr>"]
      unique_after_combine [of _ _ _ _ "''x''" "\<lparr> selector = ''div + p'', order = - 1 \<rparr>"]
    by (simp add: d p)
qed

section \<open>The thrown values\<close>

text \<open>
  C9. Whatever the receiver and the value are, an append that throws throws one of two
  fixed messages: the order check throws "Selector parts should be arranged in the
  following order: element, id, class, attribute, pseudo-class, pseudo-element", and the
  uniqueness check throws "Element, id and pseudo-element should not occur more then one
  time inside the selector".
\<close>

theorem error_messages:
  "(n < order this \<longrightarrow>
      check this n u =
        Inl (Error ''Selector parts should be arranged in the following order: element, id, class, attribute, pseudo-class, pseudo-element'')) \<and>
   (order this = n \<and> u \<longrightarrow>
      check this n u =
        Inl (Error ''Element, id and pseudo-element should not occur more then one time inside the selector'')) \<and>
   (check this n u = Inl e \<longrightarrow> n < order this \<or> order this = n \<and> u) \<and>
   (call k this v = Inl e \<longrightarrow>
      e = Error ''Selector parts should be arranged in the following order: element, id, class, attribute, pseudo-class, pseudo-element'' \<or>
      e = Error ''Element, id and pseudo-element should not occur more then one time inside the selector'') \<and>
   joinStart [''element'', ''id'', ''pseudo-element''] = Inr ''Element, id and pseudo-element'' \<and>
   capitalize ''element'' = Inr ''Element''"
proof -
  have "joinStart [''element'', ''id'', ''pseudo-element''] = Inr ''Element, id and pseudo-element''"
    using joinStart_uniques by (simp add: ORDERED_SELECTORS_def)
  moreover have "capitalize ''element'' = Inr ''Element''"
    by (simp add: capitalize_def slice_from_def slice_def toUpperCase_e)
  moreover have "call k this v = Inl e \<longrightarrow>
      e = Error ''Selector parts should be arranged in the following order: element, id, class, attribute, pseudo-class, pseudo-element'' \<or>
      e = Error ''Element, id and pseudo-element should not occur more then one time inside the selector''"
    by (cases k) (auto simp add: call_simps selectorMaker_eq split: if_splits)
  ultimately show ?thesis
    by (auto simp add: check_eq split: if_splits)
qed

theorem error_messages_witness:
  "check \<lparr> selector = ''.c'', order = 2 \<rparr> 1 True =
     Inl (Error ''Selector parts should be arranged in the following order: element, id, class, attribute, pseudo-class, pseudo-element'') \<and>
   check \<lparr> selector = ''#a'', order = 1 \<rparr> 1 True =
     Inl (Error ''Element, id and pseudo-element should not occur more then one time inside the selector'') \<and>
   call Id \<lparr> selector = ''.c'', order = 2 \<rparr> ''x'' =
     Inl (Error ''Selector parts should be arranged in the following order: element, id, class, attribute, pseudo-class, pseudo-element'')"
proof -
  have f: "call Id \<lparr> selector = ''.c'', order = 2 \<rparr> ''x'' =
      Inl (Error ''Selector parts should be arranged in the following order: element, id, class, attribute, pseudo-class, pseudo-element'')"
    by (simp add: call_simps selectorMaker_eq)
  show ?thesis
    using error_messages [of 1 "\<lparr> selector = ''.c'', order = 2 \<rparr>" True _ Id "''x''"]
      error_messages [of 1 "\<lparr> selector = ''#a'', order = 1 \<rparr>" True]
      f
    by simp
qed

text \<open>
  C10. Both checks throw a value built by the constructor \<open>Error\<close>: a failing append never
  throws anything else, and two thrown values are equal exactly when they come from the
  same check, so only the message tells the two violations apart.
\<close>

theorem plain_error:
  "(check this n u = Inl e \<longrightarrow> (\<exists>msg. e = Error msg)) \<and>
   (call k this v = Inl e \<longrightarrow> (\<exists>msg. e = Error msg)) \<and>
   (check this n u = Inl (Error msg) \<and> check this' n' u' = Inl (Error msg') \<longrightarrow>
      (msg = msg' \<longleftrightarrow> (n < order this \<longleftrightarrow> n' < order this')))"
proof -
  have "call k this v = Inl e \<longrightarrow> (\<exists>msg. e = Error msg)"
    by (cases k) (auto simp add: call_simps selectorMaker_eq split: if_splits)
  then show ?thesis
    by (auto simp add: check_eq split: if_splits)
qed

theorem plain_error_witness:
  "(\<exists>msg. call Id \<lparr> selector = ''.c'', order = 2 \<rparr> ''x'' = Inl (Error msg)) \<and>
   (\<exists>msg. call Id \<lparr> selector = ''#a'', order = 1 \<rparr> ''x'' = Inl (Error msg)) \<and>
   call Id \<lparr> selector = ''.c'', order = 2 \<rparr> ''x'' \<noteq>
     call Id \<lparr> selector = ''#a'', order = 1 \<rparr> ''x''"
proof -
  obtain e1 where e1: "call Id \<lparr> selector = ''.c'', order = 2 \<rparr> ''x'' = Inl e1"
    by (simp add: call_simps selectorMaker_eq)
  obtain e2 where e2: "call Id \<lparr> selector = ''#a'', order = 1 \<rparr> ''x'' = Inl e2"
    by (simp add: call_simps selectorMaker_eq)
  obtain m1 where m1: "e1 = Error m1"
    using plain_error [of "\<lparr> selector = ''.c'', order = 2 \<rparr>" _ _ e1 Id "''x''"] e1
    by blast
  obtain m2 where m2: "e2 = Error m2"
    using plain_error [of "\<lparr> selector = ''#a'', order = 1 \<rparr>" _ _ e2 Id "''x''"] e2
    by blast
  have c1: "check \<lparr> selector = ''.c'', order = 2 \<rparr> 1 True = Inl (Error m1)"
    using e1 m1 by (simp add: call_simps selectorMaker_def split: sum.splits)
  have c2: "check \<lparr> selector = ''#a'', order = 1 \<rparr> 1 True = Inl (Error m2)"
    using e2 m2 by (simp add: call_simps selectorMaker_def split: sum.splits)
  have "m1 \<noteq> m2"
    using plain_error [of "\<lparr> selector = ''.c'', order = 2 \<rparr>" 1 True _ _ _ m1
        "\<lparr> selector = ''#a'', order = 1 \<rparr>" 1 True m2] c1 c2
    by simp
  then show ?thesis
    using e1 e2 m1 m2 by simp
qed


section \<open>Chains of calls\<close>

lemma selectorMaker_success:
  "selectorMaker n u f this v = Inr b \<Longrightarrow>
     order this \<le> n \<and> (u \<longrightarrow> order this < n) \<and> order b = n \<and>
     selector b = selector this @ f v"
  by (auto simp add: selectorMaker_eq split: if_splits)

lemma call_success:
  assumes ok: "call k this v = Inr b"
  shows "order this \<le> rank k \<and> (non_repeatable k \<longrightarrow> order this < rank k) \<and>
         order b = rank k \<and> selector b = selector this @ render k v"
proof (cases k)
  case Element
  with ok have "selectorMaker 0 True (\<lambda>s. s) this v = Inr b"
    by (simp add: call_Element)
  from selectorMaker_success [OF this] Element show ?thesis
    by (simp add: rank_simps non_repeatable_simps render_simps)
next
  case Id
  with ok have "selectorMaker 1 True (\<lambda>s. ''#'' @ s) this v = Inr b"
    by (simp add: call_Id)
  from selectorMaker_success [OF this] Id show ?thesis
    by (simp add: rank_simps non_repeatable_simps render_simps)
next
  case Class
  with ok have "selectorMaker 2 False (\<lambda>s. ''.'' @ s) this v = Inr b"
    by (simp add: call_Class)
  from selectorMaker_success [OF this] Class show ?thesis
    by (simp add: rank_simps non_repeatable_simps render_simps)
next
  case Attr
  with ok have "selectorMaker 3 False (\<lambda>s. ''['' @ s @ '']'') this v = Inr b"
    by (simp add: call_Attr)
  from selectorMaker_success [OF this] Attr show ?thesis
    by (simp add: rank_simps non_repeatable_simps render_simps)
next
  case PseudoClass
  with ok have "selectorMaker 4 False (\<lambda>s. '':'' @ s) this v = Inr b"
    by (simp add: call_PseudoClass)
  from selectorMaker_success [OF this] PseudoClass show ?thesis
    by (simp add: rank_simps non_repeatable_simps render_simps)
next
  case PseudoElement
  with ok have "selectorMaker 5 True (\<lambda>s. ''::'' @ s) this v = Inr b"
    by (simp add: call_PseudoElement)
  from selectorMaker_success [OF this] PseudoElement show ?thesis
    by (simp add: rank_simps non_repeatable_simps render_simps)
qed

lemma runs_nonempty: "runs e \<noteq> []"
  by (induction e) simp_all

lemma concat_runs: "concat (runs e) = kinds e"
proof (induction e)
  case Builder
  show ?case by (simp add: kinds_def)
next
  case (Append e k v)
  have "concat (butlast (runs e) @ [last (runs e)]) = kinds e"
    using Append.IH runs_nonempty [of e] by simp
  then show ?case
    by (simp add: kinds_def)
next
  case (Combine x l c r)
  then show ?case
    by (simp add: kinds_def)
qed

lemma runs_appends_only: "appends_only e \<Longrightarrow> runs e = [kinds e]"
  by (induction e) (simp_all add: kinds_def)

lemma extend_run:
  assumes ord: "rank_ordered ks" and uni: "unique_once ks"
    and below: "\<forall>k' \<in> set ks. rank k' \<le> a"
    and le: "a \<le> rank k" and lt: "non_repeatable k \<longrightarrow> a < rank k"
  shows "rank_ordered (ks @ [k]) \<and> unique_once (ks @ [k])"
proof
  from below le have "\<forall>k' \<in> set ks. rank k' \<le> rank k"
    by auto
  with ord show "rank_ordered (ks @ [k])"
    by (simp add: rank_ordered_def sorted_append)
next
  show "unique_once (ks @ [k])"
  proof (cases "non_repeatable k")
    case True
    with below lt have "\<forall>k' \<in> set ks. rank k' < rank k"
      by auto
    then have "k \<notin> set ks"
      by auto
    with uni show ?thesis
      by (auto simp add: unique_once_def)
  next
    case False
    with uni show ?thesis
      by (auto simp add: unique_once_def)
  qed
qed

lemma chain_invariant:
  "eval e = Inr b \<Longrightarrow>
     selector b = concat (map piece_text (pieces e)) \<and>
     (\<forall>run \<in> set (runs e). rank_ordered run \<and> unique_once run) \<and>
     (\<forall>k \<in> set (last (runs e)). rank k \<le> order b)"
proof (induction e arbitrary: b)
  case Builder
  then show ?case
    by (auto simp add: rank_ordered_def unique_once_def css_eq)
next
  case (Append e k v)
  from Append.prems obtain a where a: "eval e = Inr a" and k: "call k a v = Inr b"
    by (auto split: sum.splits)
  note ih = Append.IH [OF a]
  note cs = call_success [OF k]
  have mem: "last (runs e) \<in> set (runs e)"
    using runs_nonempty [of e] by simp
  have new: "rank_ordered (last (runs e) @ [k]) \<and> unique_once (last (runs e) @ [k])"
    using extend_run [of "last (runs e)" "order a" k] ih cs mem by blast
  have old: "\<forall>run \<in> set (butlast (runs e)). rank_ordered run \<and> unique_once run"
    using ih by (auto dest: in_set_butlastD)
  have "selector b = concat (map piece_text (pieces (Append e k v)))"
    using ih cs by simp
  moreover have "\<forall>run \<in> set (runs (Append e k v)). rank_ordered run \<and> unique_once run"
    using new old by auto
  moreover have "\<forall>k' \<in> set (last (runs (Append e k v))). rank k' \<le> order b"
    using ih cs by auto
  ultimately show ?case
    by blast
next
  case (Combine x l c r)
  from Combine.prems obtain t s1 s2 where t: "eval x = Inr t" and s1: "eval l = Inr s1"
    and s2: "eval r = Inr s2" and b: "b = combine t s1 c s2"
    by (auto split: sum.splits)
  note ih1 = Combine.IH(2) [OF s1]
  note ih2 = Combine.IH(3) [OF s2]
  have "selector b = concat (map piece_text (pieces (Combine x l c r)))"
    using ih1 ih2 b by (simp add: combine_def new_SelectorBuilder_def)
  moreover have "\<forall>run \<in> set (runs (Combine x l c r)). rank_ordered run \<and> unique_once run"
    using ih1 ih2 by (auto simp add: rank_ordered_def unique_once_def)
  moreover have "\<forall>k' \<in> set (last (runs (Combine x l c r))). rank k' \<le> order b"
    by simp
  ultimately show ?case
    by blast
qed

text \<open>
  C5. As stated, for every chain of successful appends and combinations and the whole
  text, the invariant fails: a combination writes the fragments of its right argument
  after those of its left argument without any check and resets \<open>order\<close>. What holds for
  every successful chain: its text is the rendering of its pieces in order, the kinds in
  the text are the concatenation of its runs, and every run (the fragments appended one
  after the other to the same instance, before, inside or after a combination) has ranks
  that never decrease and no non-repeatable kind twice; the ranks of the last run are at
  most the \<open>order\<close> of the result. A chain without a combination has one run, its whole
  text.
\<close>

theorem invariant_per_run:
  "eval e = Inr b \<Longrightarrow>
     selector b = concat (map piece_text (pieces e)) \<and>
     kinds e = concat (runs e) \<and>
     (\<forall>run \<in> set (runs e). rank_ordered run \<and> unique_once run) \<and>
     (\<forall>k \<in> set (last (runs e)). rank k \<le> order b) \<and>
     (appends_only e \<longrightarrow> runs e = [kinds e] \<and> rank_ordered (kinds e) \<and> unique_once (kinds e))"
proof -
  assume ev: "eval e = Inr b"
  note inv = chain_invariant [OF ev]
  have "appends_only e \<longrightarrow> runs e = [kinds e] \<and> rank_ordered (kinds e) \<and> unique_once (kinds e)"
  proof
    assume "appends_only e"
    then have "runs e = [kinds e]"
      by (rule runs_appends_only)
    with inv show "runs e = [kinds e] \<and> rank_ordered (kinds e) \<and> unique_once (kinds e)"
      by simp
  qed
  with inv concat_runs [of e] show ?thesis
    by simp
qed

theorem invariant_per_run_witness:
  "eval (Append (Combine Builder (Append (Append Builder Element ''div'') Id ''main'') ''+''
                   (Append Builder Element ''p'')) Class ''x'') =
     Inr \<lparr> selector = ''div#main + p.x'', order = 2 \<rparr> \<and>
   concat (map piece_text (pieces (Append (Combine Builder
       (Append (Append Builder Element ''div'') Id ''main'') ''+''
       (Append Builder Element ''p'')) Class ''x''))) = ''div#main + p.x'' \<and>
   runs (Append (Combine Builder (Append (Append Builder Element ''div'') Id ''main'') ''+''
                   (Append Builder Element ''p'')) Class ''x'') =
     [[Element, Id], [Element], [Class]] \<and>
   rank_ordered [Element, Id] \<and> unique_once [Element, Id] \<and>
   rank_ordered [Element] \<and> unique_once [Element] \<and>
   rank_ordered [Class] \<and> unique_once [Class] \<and>
   eval (Append (Append (Append Builder Id ''main'') Class ''container'') Class ''editable'') =
     Inr \<lparr> selector = ''#main.container.editable'', order = 2 \<rparr> \<and>
   rank_ordered [Id, Class, Class] \<and> unique_once [Id, Class, Class]"
proof -
  let ?E = "Append (Combine Builder (Append (Append Builder Element ''div'') Id ''main'') ''+''
      (Append Builder Element ''p'')) Class ''x''"
  let ?F = "Append (Append (Append Builder Id ''main'') Class ''container'') Class ''editable''"
  have ev: "eval ?E = Inr \<lparr> selector = ''div#main + p.x'', order = 2 \<rparr>"
    by (simp add: call_simps selectorMaker_eq css_eq combine_def new_SelectorBuilder_def)
  have ev': "eval ?F = Inr \<lparr> selector = ''#main.container.editable'', order = 2 \<rparr>"
    by (simp add: call_simps selectorMaker_eq css_eq)
  have rs: "runs ?E = [[Element, Id], [Element], [Class]]"
    by simp
  have ks: "kinds ?F = [Id, Class, Class]"
    by (simp add: kinds_def)
  show ?thesis
    using invariant_per_run [OF ev] invariant_per_run [OF ev'] ev ev' rs ks
    by simp
qed

theorem invariant_counterexample:
  "eval (Combine Builder (Append (Append Builder Element ''div'') Id ''main'') ''+''
           (Append Builder Element ''p'')) =
     Inr \<lparr> selector = ''div#main + p'', order = - 1 \<rparr> \<and>
   kinds (Combine Builder (Append (Append Builder Element ''div'') Id ''main'') ''+''
           (Append Builder Element ''p'')) = [Element, Id, Element] \<and>
   \<not> rank_ordered (kinds (Combine Builder
        (Append (Append Builder Element ''div'') Id ''main'') ''+''
        (Append Builder Element ''p''))) \<and>
   \<not> unique_once (kinds (Combine Builder
        (Append (Append Builder Element ''div'') Id ''main'') ''+''
        (Append Builder Element ''p'')))"
  by (simp add: call_simps selectorMaker_eq css_eq combine_def new_SelectorBuilder_def
      kinds_def rank_ordered_def unique_once_def rank_simps non_repeatable_simps)


section \<open>The store\<close>

text \<open>
  The translation over the store computes what the translation on values computes, and
  puts the result at the next free address.
\<close>

lemma new_h_eq: "new_h order_arg selector_arg h = (length h, h @ [new_SelectorBuilder order_arg selector_arg])"
  by (simp add: new_h_def SelectorBuilder_h_def assign_selector_def assign_order_def
      fresh_object_def new_SelectorBuilder_def)

lemma check_h_eq: "check_h this n u h = check (h ! this) n u"
  by (simp add: check_h_def check_def)

lemma selectorMaker_h_eq:
  "selectorMaker_h n u f this v h =
     (case selectorMaker n u f (h ! this) v of
        Inl e \<Rightarrow> (Inl e, h)
      | Inr obj \<Rightarrow> (Inr (length h), h @ [obj]))"
  by (simp add: selectorMaker_h_def selectorMaker_def check_h_eq new_h_eq split: sum.splits)

lemma call_h_eq:
  "call_h k this v h =
     (case call k (h ! this) v of
        Inl e \<Rightarrow> (Inl e, h)
      | Inr obj \<Rightarrow> (Inr (length h), h @ [obj]))"
  by (cases k)
    (simp_all add: call_h_def SelectorMethods_h_def install_h_def ORDERED_SELECTORS_def upt_rec
      call_simps selectorMaker_h_eq)

lemma combine_h_eq:
  "combine_h this l c r h = (length h, h @ [combine (h ! this) (h ! l) c (h ! r)])"
  by (simp add: combine_h_def new_h_eq combine_def)

text \<open>
  The constructor body itself does write to the address it is given: run on an instance
  that is already in the store, as the call \<open>receiver.constructor(x)\<close> with a string \<open>x\<close>
  does (a string has neither property, so both defaults apply), it replaces both fields.
  An append or a combination never runs it on an existing address.
\<close>

lemma constructor_overwrites:
  "this < length h \<Longrightarrow>
     SelectorBuilder_h this None None h = h[this := \<lparr> selector = [], order = - 1 \<rparr>]"
  by (cases "h ! this") (simp add: SelectorBuilder_h_def assign_selector_def assign_order_def)

lemma call_h_cases:
  assumes "call_h k this v h = (res, h')"
  shows "(\<exists>e. res = Inl e \<and> h' = h \<and> call k (h ! this) v = Inl e) \<or>
         (\<exists>obj. res = Inr (length h) \<and> h' = h @ [obj] \<and> call k (h ! this) v = Inr obj)"
  using assms by (auto simp add: call_h_eq split: sum.splits)

lemma eval_h_extends: "eval_h e h = (res, h') \<Longrightarrow> \<exists>new. h' = h @ new"
proof (induction e arbitrary: h res h')
  case Builder
  then show ?case by simp
next
  case (Append e k v)
  show ?case
  proof (cases "eval_h e h")
    case (Pair r1 h1)
    from Append.IH [OF Pair] obtain n1 where h1: "h1 = h @ n1" ..
    show ?thesis
    proof (cases r1)
      case (Inl x)
      with Pair Append.prems h1 show ?thesis by auto
    next
      case (Inr a)
      with Pair Append.prems have "call_h k a v h1 = (res, h')" by simp
      from call_h_cases [OF this] h1 show ?thesis by auto
    qed
  qed
next
  case (Combine x l c r)
  show ?case
  proof (cases "eval_h x h")
    case p1: (Pair r1 h1)
    from Combine.IH(1) [OF p1] obtain n1 where h1: "h1 = h @ n1" ..
    show ?thesis
    proof (cases r1)
      case (Inl e)
      with p1 Combine.prems h1 show ?thesis by auto
    next
      case a: (Inr a)
      show ?thesis
      proof (cases "eval_h l h1")
        case p2: (Pair r2 h2)
        from Combine.IH(2) [OF p2] obtain n2 where h2: "h2 = h1 @ n2" ..
        show ?thesis
        proof (cases r2)
          case (Inl e)
          with p1 a p2 Combine.prems h1 h2 show ?thesis by auto
        next
          case s1: (Inr s1)
          show ?thesis
          proof (cases "eval_h r h2")
            case p3: (Pair r3 h3)
            from Combine.IH(3) [OF p3] obtain n3 where h3: "h3 = h2 @ n3" ..
            show ?thesis
            proof (cases r3)
              case (Inl e)
              with p1 a p2 s1 p3 Combine.prems h1 h2 h3 show ?thesis by auto
            next
              case s2: (Inr s2)
              with p1 a p2 s1 p3 Combine.prems h1 h2 h3 show ?thesis
                by (auto simp add: combine_h_eq)
            qed
          qed
        qed
      qed
    qed
  qed
qed

lemma eval_h_refines:
  "eval_h e h = (res, h') \<Longrightarrow> h \<noteq> [] \<Longrightarrow> h ! 0 = cssSelectorBuilder \<Longrightarrow>
     (case res of Inl x \<Rightarrow> eval e = Inl x | Inr p \<Rightarrow> p < length h' \<and> eval e = Inr (h' ! p))"
proof (induction e arbitrary: h res h')
  case Builder
  then show ?case by auto
next
  case (Append e k v)
  show ?case
  proof (cases "eval_h e h")
    case (Pair r1 h1)
    note ih = Append.IH [OF Pair Append.prems(2,3)]
    show ?thesis
    proof (cases r1)
      case (Inl x)
      with Pair Append.prems(1) ih show ?thesis by auto
    next
      case (Inr a)
      with Pair Append.prems(1) have "call_h k a v h1 = (res, h')" by simp
      from call_h_cases [OF this] ih Inr show ?thesis by auto
    qed
  qed
next
  case (Combine x l c r)
  show ?case
  proof (cases "eval_h x h")
    case p1: (Pair r1 h1)
    note ih1 = Combine.IH(1) [OF p1 Combine.prems(2,3)]
    from eval_h_extends [OF p1] obtain n1 where h1: "h1 = h @ n1" ..
    with Combine.prems(2,3) have e1: "h1 \<noteq> []" "h1 ! 0 = cssSelectorBuilder"
      by (simp_all add: nth_append)
    show ?thesis
    proof (cases r1)
      case (Inl e)
      with p1 Combine.prems(1) ih1 show ?thesis by auto
    next
      case a: (Inr a)
      show ?thesis
      proof (cases "eval_h l h1")
        case p2: (Pair r2 h2)
        note ih2 = Combine.IH(2) [OF p2 e1]
        from eval_h_extends [OF p2] obtain n2 where h2: "h2 = h1 @ n2" ..
        with e1 have e2: "h2 \<noteq> []" "h2 ! 0 = cssSelectorBuilder"
          by (simp_all add: nth_append)
        show ?thesis
        proof (cases r2)
          case (Inl e)
          with p1 a p2 Combine.prems(1) ih1 ih2 show ?thesis by auto
        next
          case s1: (Inr s1)
          show ?thesis
          proof (cases "eval_h r h2")
            case p3: (Pair r3 h3)
            note ih3 = Combine.IH(3) [OF p3 e2]
            from eval_h_extends [OF p3] obtain n3 where h3: "h3 = h2 @ n3" ..
            show ?thesis
            proof (cases r3)
              case (Inl e)
              with p1 a p2 s1 p3 Combine.prems(1) ih1 ih2 ih3 show ?thesis by auto
            next
              case s2: (Inr s2)
              have la: "a < length h1" and ls: "s1 < length h2"
                using ih1 ih2 a s1 by simp_all
              have "h3 ! a = h1 ! a"
                using la unfolding h3 h2 by (simp add: nth_append)
              moreover have "h3 ! s1 = h2 ! s1"
                using ls unfolding h3 by (simp add: nth_append)
              ultimately show ?thesis
                using p1 a p2 s1 p3 s2 Combine.prems(1) ih1 ih2 ih3
                by (auto simp add: combine_h_eq)
            qed
          qed
        qed
      qed
    qed
  qed
qed

text \<open>
  C6. Neither an append (one of the six selector methods) nor a combination writes to an
  instance that is already in the store. An append either throws and leaves the store as
  it was, or returns the next free address, where \<open>new\<close> has put the one new instance; a
  combination always does the latter. In both cases every instance of the old store, the
  receiver among them, keeps its fields. The same holds after a whole chain of such calls,
  and a chain that starts at \<open>cssSelectorBuilder\<close> computes the value of its evaluation on
  values, \<open>eval\<close>, whatever other calls have filled the store before.
\<close>

theorem receiver_unchanged:
  "(call_h k this v h = (res, h1) \<longrightarrow>
      (\<forall>p < length h. h1 ! p = h ! p) \<and>
      (case res of
         Inl e \<Rightarrow> h1 = h \<and> call k (h ! this) v = Inl e
       | Inr p \<Rightarrow> p = length h \<and> h1 = h @ [h1 ! p] \<and> call k (h ! this) v = Inr (h1 ! p))) \<and>
   (combine_h this l c r h = (q, h2) \<longrightarrow>
      (\<forall>p < length h. h2 ! p = h ! p) \<and> q = length h \<and>
      h2 = h @ [combine (h ! this) (h ! l) c (h ! r)]) \<and>
   (eval_h e h = (res', h3) \<longrightarrow>
      length h \<le> length h3 \<and> (\<forall>p < length h. h3 ! p = h ! p)) \<and>
   (eval_h e h = (res', h3) \<and> h \<noteq> [] \<and> h ! 0 = cssSelectorBuilder \<longrightarrow>
      h3 ! 0 = cssSelectorBuilder \<and>
      (case res' of Inl x \<Rightarrow> eval e = Inl x | Inr p \<Rightarrow> p < length h3 \<and> eval e = Inr (h3 ! p))) \<and>
   module_store = [cssSelectorBuilder]"
proof -
  have 1: "call_h k this v h = (res, h1) \<longrightarrow>
      (\<forall>p < length h. h1 ! p = h ! p) \<and>
      (case res of
         Inl e \<Rightarrow> h1 = h \<and> call k (h ! this) v = Inl e
       | Inr p \<Rightarrow> p = length h \<and> h1 = h @ [h1 ! p] \<and> call k (h ! this) v = Inr (h1 ! p))"
    using call_h_cases [of k this v h res h1] by (auto simp add: nth_append)
  have 2: "combine_h this l c r h = (q, h2) \<longrightarrow>
      (\<forall>p < length h. h2 ! p = h ! p) \<and> q = length h \<and>
      h2 = h @ [combine (h ! this) (h ! l) c (h ! r)]"
    by (auto simp add: combine_h_eq nth_append)
  have 3: "eval_h e h = (res', h3) \<longrightarrow>
      length h \<le> length h3 \<and> (\<forall>p < length h. h3 ! p = h ! p)"
    using eval_h_extends [of e h res' h3] by (auto simp add: nth_append)
  have 4: "eval_h e h = (res', h3) \<and> h \<noteq> [] \<and> h ! 0 = cssSelectorBuilder \<longrightarrow>
      h3 ! 0 = cssSelectorBuilder \<and>
      (case res' of Inl x \<Rightarrow> eval e = Inl x | Inr p \<Rightarrow> p < length h3 \<and> eval e = Inr (h3 ! p))"
    using eval_h_extends [of e h res' h3] eval_h_refines [of e h res' h3]
    by (auto simp add: nth_append)
  have 5: "module_store = [cssSelectorBuilder]"
    by (simp add: module_store_def new_h_eq cssSelectorBuilder_def)
  from 1 2 3 4 5 show ?thesis by blast
qed

theorem receiver_unchanged_witness:
  "call_h Id 0 ''main'' module_store =
     (Inr 1, [cssSelectorBuilder, \<lparr> selector = ''#main'', order = 1 \<rparr>]) \<and>
   snd (call_h Id 1 ''other'' [cssSelectorBuilder, \<lparr> selector = ''#main'', order = 1 \<rparr>]) =
     [cssSelectorBuilder, \<lparr> selector = ''#main'', order = 1 \<rparr>] \<and>
   snd (combine_h 0 1 ''+'' 1 [cssSelectorBuilder, \<lparr> selector = ''#main'', order = 1 \<rparr>]) =
     [cssSelectorBuilder, \<lparr> selector = ''#main'', order = 1 \<rparr>,
      \<lparr> selector = ''#main + #main'', order = - 1 \<rparr>] \<and>
   snd (eval_h (Append (Append Builder Id ''main'') Class ''c'')
          [cssSelectorBuilder, \<lparr> selector = ''#main'', order = 1 \<rparr>]) ! 0 = cssSelectorBuilder \<and>
   eval (Append (Append Builder Id ''main'') Class ''c'') =
     Inr (snd (eval_h (Append (Append Builder Id ''main'') Class ''c'')
                 [cssSelectorBuilder, \<lparr> selector = ''#main'', order = 1 \<rparr>]) ! 3)"
proof -
  let ?main = "\<lparr> selector = ''#main'', order = 1 \<rparr>"
  let ?S = "[cssSelectorBuilder, ?main]"
  let ?E = "Append (Append Builder Id ''main'') Class ''c''"
  have ms: "module_store = [cssSelectorBuilder]"
    by (simp add: module_store_def new_h_eq cssSelectorBuilder_def)
  have a: "call_h Id 0 ''main'' module_store = (Inr 1, [cssSelectorBuilder, ?main])"
    by (simp add: ms call_h_eq call_simps selectorMaker_eq css_eq)
  have b: "fst (call_h Id 1 ''other'' ?S) =
      Inl (Error ''Element, id and pseudo-element should not occur more then one time inside the selector'')"
    by (simp add: call_h_eq call_simps selectorMaker_eq)
  have c: "fst (eval_h ?E ?S) = Inr 3"
    by (simp add: call_h_eq call_simps selectorMaker_eq css_eq)
  have b': "snd (call_h Id 1 ''other'' ?S) = ?S"
    using receiver_unchanged [of Id 1 "''other''" ?S "fst (call_h Id 1 ''other'' ?S)"
        "snd (call_h Id 1 ''other'' ?S)"] b
    by simp
  have d: "snd (combine_h 0 1 ''+'' 1 ?S) = ?S @ [combine (?S ! 0) (?S ! 1) ''+'' (?S ! 1)]"
    using receiver_unchanged [of _ 0 _ ?S _ _ 1 "''+''" 1 "fst (combine_h 0 1 ''+'' 1 ?S)"
        "snd (combine_h 0 1 ''+'' 1 ?S)"]
    by simp
  have e: "snd (eval_h ?E ?S) ! 0 = cssSelectorBuilder \<and> eval ?E = Inr (snd (eval_h ?E ?S) ! 3)"
    using receiver_unchanged [of _ _ _ ?S _ _ _ _ _ _ _ ?E "fst (eval_h ?E ?S)"
        "snd (eval_h ?E ?S)"] c
    by simp
  show ?thesis
    using a b' d e by (simp add: combine_def new_SelectorBuilder_def)
qed

end
